theory Spec2Isabelle
  imports Complex_Main
begin

section \<open>Values, colours and errors\<close>

text \<open>
  The tree stores Python objects. The embedding covers the kinds of object that the
  source distinguishes: \<open>None\<close>, \<open>int\<close>, \<open>float\<close> (a finite float, by its exact
  value), \<open>str\<close>, a reference to a \<open>BasicNode\<close> object and a reference to an \<open>RBT\<close>
  object. Objects live in a store and are named by their address.
\<close>

type_synonym addr = nat

datatype pyval =
    PNone
  | PInt int
  | PFloat rat
  | PStr string
  | PNode addr
  | PTree nat

text \<open>\<open>class Color(Enum)\<close> of \<open>ma_node.py\<close>.\<close>

datatype color = BLACK | RED

text \<open>The exceptions that the modelled code can raise.\<close>

datatype error = ValueError | TypeError | AssertionError | AttributeError | RecursionError

text \<open>
  \<open>type(value) in {int, float}\<close>, \<open>isinstance(value, BasicNode)\<close> and
  \<open>isinstance(value, HouseOfHades)\<close>. \<open>BasicNode\<close> is the only subclass of
  \<open>HouseOfHades\<close>; \<open>class RBT\<close> has no base class.
\<close>

fun is_numeric :: "pyval \<Rightarrow> bool" where
  "is_numeric (PInt i) = True"
| "is_numeric (PFloat r) = True"
| "is_numeric v = False"

fun is_BasicNode :: "pyval \<Rightarrow> bool" where
  "is_BasicNode (PNode a) = True"
| "is_BasicNode v = False"

fun is_HouseOfHades :: "pyval \<Rightarrow> bool" where
  "is_HouseOfHades (PNode a) = True"
| "is_HouseOfHades v = False"

text \<open>Python's \<open>==\<close> on these objects: numbers by value, strings by content, other
  objects by identity; it never raises.\<close>

fun py_eq :: "pyval \<Rightarrow> pyval \<Rightarrow> bool" where
  "py_eq (PInt i) (PInt j) = (i = j)"
| "py_eq (PInt i) (PFloat r) = (of_int i = r)"
| "py_eq (PFloat r) (PInt j) = (r = of_int j)"
| "py_eq (PFloat r) (PFloat q) = (r = q)"
| "py_eq a b = (a = b)"

text \<open>Strings are ordered lexicographically by character code.\<close>

fun str_lt :: "string \<Rightarrow> string \<Rightarrow> bool" where
  "str_lt [] [] = False"
| "str_lt [] (y # ys) = True"
| "str_lt (x # xs) [] = False"
| "str_lt (x # xs) (y # ys) =
     (if (of_char x :: nat) < of_char y then True
      else if (of_char x :: nat) = of_char y then str_lt xs ys
      else False)"

text \<open>Python's \<open><\<close>: defined between numbers and between strings, a \<open>TypeError\<close>
  for every other pair of the objects modelled here.\<close>

fun py_lt :: "pyval \<Rightarrow> pyval \<Rightarrow> error + bool" where
  "py_lt (PInt i) (PInt j) = Inr (i < j)"
| "py_lt (PInt i) (PFloat r) = Inr (of_int i < r)"
| "py_lt (PFloat r) (PInt j) = Inr (r < of_int j)"
| "py_lt (PFloat r) (PFloat q) = Inr (r < q)"
| "py_lt (PStr x) (PStr y) = Inr (str_lt x y)"
| "py_lt a b = Inl TypeError"

text \<open>\<open>a > b\<close> is \<open>b < a\<close> on these objects.\<close>

definition py_gt :: "pyval \<Rightarrow> pyval \<Rightarrow> error + bool" where
  "py_gt a b = py_lt b a"

section \<open>The node: \<open>ma_node.py\<close>, \<open>hades_the_god.py\<close>\<close>

text \<open>
  The attributes of a \<open>BasicNode\<close> object. The links are references to other node
  objects or \<open>None\<close>. (The attribute \<open>_children\<close> is set to the empty list by the
  constructor and never read or written again; it is left out.)
\<close>

record node =
  data :: pyval
  color :: color
  left :: "addr option"
  right :: "addr option"
  parent :: "addr option"

text \<open>
  The program state: the store of node objects, the next free address, the two
  attributes \<open>root\<close> and \<open>_length\<close> of the one \<open>RBT\<close> object under study, and the
  \<open>UserWarning\<close>s issued so far (each recorded by the value it reports).
\<close>

record state =
  heap :: "addr \<Rightarrow> node"
  nxt :: addr
  rbt_root :: "addr option"
  rbt_length :: int
  warned :: "pyval list"

text \<open>\<open>HouseOfHades.adjudging\<close>: \<open>None\<close> when the check passes, otherwise the
  exception raised.\<close>

definition adjudging :: "pyval \<Rightarrow> error option" where
  "adjudging c =
     (if c = PNone then Some ValueError
      else if is_HouseOfHades c then Some TypeError
      else None)"

text \<open>
  \<open>BasicNode.__init__\<close>: the new object gets the next free address. The colour
  check of the constructor cannot fail on a value of type \<open>color\<close>.
\<close>

definition BasicNode :: "pyval \<Rightarrow> color \<Rightarrow> state \<Rightarrow> (error + addr) \<times> state" where
  "BasicNode v c s =
     (case adjudging v of
        Some e \<Rightarrow> (Inl e, s)
      | None \<Rightarrow>
          (Inr (nxt s),
           s\<lparr>heap := (heap s)(nxt s :=
                 \<lparr>data = v, color = c, left = None, right = None, parent = None\<rparr>),
             nxt := nxt s + 1\<rparr>))"

text \<open>\<open>set_color\<close>; its check cannot fail on a value of type \<open>color\<close>.\<close>

definition set_color :: "addr \<Rightarrow> color \<Rightarrow> state \<Rightarrow> state" where
  "set_color a c s = s\<lparr>heap := (heap s)(a := (heap s a)\<lparr>color := c\<rparr>)\<rparr>"

text \<open>
  \<open>set_left\<close> and \<open>set_right\<close>: the link is written first, then the parent link of
  the new child, when there is one. The argument is a node or \<open>None\<close> by its type,
  so the \<open>TypeError\<close> branch has no counterpart.
\<close>

definition set_left :: "addr \<Rightarrow> addr option \<Rightarrow> state \<Rightarrow> state" where
  "set_left a new s =
     (let h1 = (heap s)(a := (heap s a)\<lparr>left := new\<rparr>) in
      case new of
        None \<Rightarrow> s\<lparr>heap := h1\<rparr>
      | Some b \<Rightarrow> s\<lparr>heap := h1(b := (h1 b)\<lparr>parent := Some a\<rparr>)\<rparr>)"

definition set_right :: "addr \<Rightarrow> addr option \<Rightarrow> state \<Rightarrow> state" where
  "set_right a new s =
     (let h1 = (heap s)(a := (heap s a)\<lparr>right := new\<rparr>) in
      case new of
        None \<Rightarrow> s\<lparr>heap := h1\<rparr>
      | Some b \<Rightarrow> s\<lparr>heap := h1(b := (h1 b)\<lparr>parent := Some a\<rparr>)\<rparr>)"

text \<open>
  \<open>is_left_child\<close>: \<open>self._parent.get_data() > self.get_data()\<close>. On a node without
  parent the attribute lookup on \<open>None\<close> raises \<open>AttributeError\<close>.
\<close>

definition is_left_child :: "addr \<Rightarrow> state \<Rightarrow> error + bool" where
  "is_left_child a s =
     (case parent (heap s a) of
        None \<Rightarrow> Inl AttributeError
      | Some p \<Rightarrow> py_gt (data (heap s p)) (data (heap s a)))"

text \<open>\<open>get_uncle\<close>.\<close>

definition get_uncle :: "addr \<Rightarrow> state \<Rightarrow> error + addr option" where
  "get_uncle a s =
     (case parent (heap s a) of
        None \<Rightarrow> Inr None
      | Some p \<Rightarrow>
          (case parent (heap s p) of
             None \<Rightarrow> Inr None
           | Some g \<Rightarrow>
               (case is_left_child p s of
                  Inl e \<Rightarrow> Inl e
                | Inr True \<Rightarrow> Inr (right (heap s g))
                | Inr False \<Rightarrow> Inr (left (heap s g)))))"

text \<open>
  \<open>BasicNode.swap\<close>, a static method on two arbitrary objects. The right-hand sides
  are read before the first assignment, and the second assignment of each pair is
  made in the store the first one left.
\<close>

definition swap :: "pyval \<Rightarrow> pyval \<Rightarrow> state \<Rightarrow> (error + unit) \<times> state" where
  "swap first_node second_node s =
     (case (first_node, second_node) of
        (PNode a, PNode b) \<Rightarrow>
          (let d1 = data (heap s a); d2 = data (heap s b);
               h1 = (heap s)(a := (heap s a)\<lparr>data := d2\<rparr>);
               h2 = h1(b := (h1 b)\<lparr>data := d1\<rparr>);
               c1 = color (h2 a); c2 = color (h2 b);
               h3 = h2(a := (h2 a)\<lparr>color := c2\<rparr>);
               h4 = h3(b := (h3 b)\<lparr>color := c1\<rparr>)
           in (Inr (), s\<lparr>heap := h4\<rparr>))
      | _ \<Rightarrow> (Inl TypeError, s))"

section \<open>The tree: \<open>ma_tree.py\<close>\<close>

text \<open>\<open>RBT.__init__\<close> without an iterable: an empty store and an empty tree.\<close>

definition blank :: node where
  "blank = \<lparr>data = PNone, color = RED, left = None, right = None, parent = None\<rparr>"

definition init_state :: state where
  "init_state =
     \<lparr>heap = (\<lambda>a. blank), nxt = 0, rbt_root = None, rbt_length = 0, warned = []\<rparr>"

text \<open>\<open>is_empty\<close>: \<open>self.root is None\<close>.\<close>

definition is_empty :: "state \<Rightarrow> bool" where
  "is_empty s = (rbt_root s = None)"

text \<open>
  \<open>_insert_node\<close>. The descent is recursive in the source; the first argument is the
  number of nested calls the interpreter still allows, and Python raises
  \<open>RecursionError\<close> when it is used up. A node object is always true in a condition,
  so \<open>if start_node.get_left()\<close> tests the link against \<open>None\<close>. The two assertions
  hold by the types of the arguments.
\<close>

fun insert_node :: "nat \<Rightarrow> addr \<Rightarrow> addr \<Rightarrow> state \<Rightarrow> (error + addr) \<times> state" where
  "insert_node 0 start_node inserted_node s = (Inl RecursionError, s)"
| "insert_node (Suc k) start_node inserted_node s =
     (let v = data (heap s inserted_node) in
      if py_eq v (data (heap s start_node)) then
        (Inr start_node, s\<lparr>warned := warned s @ [v]\<rparr>)
      else
        (case py_lt v (data (heap s start_node)) of
           Inl e \<Rightarrow> (Inl e, s)
         | Inr True \<Rightarrow>
             (case left (heap s start_node) of
                Some l \<Rightarrow> insert_node k l inserted_node s
              | None \<Rightarrow>
                  (let s1 = set_left start_node (Some inserted_node) s in
                   (Inr inserted_node, s1\<lparr>rbt_length := rbt_length s1 + 1\<rparr>)))
         | Inr False \<Rightarrow>
             (case right (heap s start_node) of
                Some r \<Rightarrow> insert_node k r inserted_node s
              | None \<Rightarrow>
                  (let s1 = set_right start_node (Some inserted_node) s in
                   (Inr inserted_node, s1\<lparr>rbt_length := rbt_length s1 + 1\<rparr>)))))"

text \<open>\<open>_insert_numeric\<close>: the start node is a node or \<open>None\<close>; the first assertion
  fails on \<open>None\<close>.\<close>

definition insert_numeric ::
  "nat \<Rightarrow> addr option \<Rightarrow> pyval \<Rightarrow> state \<Rightarrow> (error + addr) \<times> state" where
  "insert_numeric fuel start_node v s =
     (case start_node of
        None \<Rightarrow> (Inl AssertionError, s)
      | Some st \<Rightarrow>
          if \<not> is_numeric v then (Inl AssertionError, s)
          else
            (case BasicNode v RED s of
               (Inl e, s1) \<Rightarrow> (Inl e, s1)
             | (Inr inserted_node, s1) \<Rightarrow> insert_node fuel st inserted_node s1))"

text \<open>\<open>_insert\<close>: a node object is linked in as it is, a number gets a new node.\<close>

definition insert_priv :: "nat \<Rightarrow> pyval \<Rightarrow> state \<Rightarrow> (error + addr) \<times> state" where
  "insert_priv fuel v s =
     (if \<not> (is_numeric v \<or> is_BasicNode v) then (Inl AssertionError, s)
      else
        (case v of
           PNode a \<Rightarrow>
             (case rbt_root s of
                None \<Rightarrow> (Inl AssertionError, s)
              | Some st \<Rightarrow> insert_node fuel st a s)
         | _ \<Rightarrow> insert_numeric fuel (rbt_root s) v s))"

text \<open>
  \<open>middle.set_parent(...)\<close>: class \<open>BasicNode\<close> defines no method \<open>set_parent\<close>, its
  base class \<open>HouseOfHades\<close> defines only \<open>adjudging\<close>, and \<open>None\<close> has no such
  attribute either. The attribute lookup raises \<open>AttributeError\<close> before anything
  is written, whatever the receiver and the argument are.
\<close>

definition set_parent ::
  "addr option \<Rightarrow> addr option \<Rightarrow> state \<Rightarrow> (error + unit) \<times> state" where
  "set_parent receiver new_parent s = (Inl AttributeError, s)"

text \<open>\<open>_rotate_left\<close> and \<open>_rotate_right\<close>, statement by statement.\<close>

definition rotate_left :: "addr \<Rightarrow> state \<Rightarrow> (error + addr) \<times> state" where
  "rotate_left start_node s =
     (let middle = right (heap s start_node) in
      case set_parent middle (parent (heap s start_node)) s of
        (Inl e, s1) \<Rightarrow> (Inl e, s1)
      | (Inr u, s1) \<Rightarrow>
          (case middle of
             None \<Rightarrow> (Inl AttributeError, s1)
           | Some m \<Rightarrow>
               (let s2 = set_right start_node (left (heap s1 m)) s1;
                    s3 = set_left m (Some start_node) s2
                in (Inr m, s3))))"

definition rotate_right :: "addr \<Rightarrow> state \<Rightarrow> (error + addr) \<times> state" where
  "rotate_right start_node s =
     (let middle = left (heap s start_node) in
      case set_parent middle (parent (heap s start_node)) s of
        (Inl e, s1) \<Rightarrow> (Inl e, s1)
      | (Inr u, s1) \<Rightarrow>
          (case middle of
             None \<Rightarrow> (Inl AttributeError, s1)
           | Some m \<Rightarrow>
               (let s2 = set_left start_node (right (heap s1 m)) s1;
                    s3 = set_right m (Some start_node) s2
                in (Inr m, s3))))"

text \<open>
  \<open>__recolor_case3\<close>. A call of a method on \<open>None\<close> raises \<open>AttributeError\<close>. The
  conditions of the \<open>if\<close>/\<open>elif\<close> chain read the store without changing it, so each
  of \<open>parent.is_left_child()\<close> and \<open>start_node.is_left_child()\<close> is evaluated once
  here, in the order in which the chain first evaluates them.
\<close>

definition recolor_case3 :: "addr \<Rightarrow> state \<Rightarrow> (error + addr) \<times> state" where
  "recolor_case3 start_node s =
     (case parent (heap s start_node) of
        None \<Rightarrow> (Inl AttributeError, s)
      | Some p \<Rightarrow>
          (case is_left_child p s of
             Inl e \<Rightarrow> (Inl e, s)
           | Inr pl \<Rightarrow>
               (case is_left_child start_node s of
                  Inl e \<Rightarrow> (Inl e, s)
                | Inr nl \<Rightarrow>
                    (case parent (heap s p) of
                       None \<Rightarrow> (Inl AttributeError, s)
                     | Some g \<Rightarrow>
                         if pl \<and> nl then
                           rotate_right g (set_color p BLACK (set_color g RED s))
                         else if pl \<and> \<not> nl then
                           (case rotate_left p s of
                              (Inl e, s1) \<Rightarrow> (Inl e, s1)
                            | (Inr p1, s1) \<Rightarrow>
                                (case rotate_right g
                                        (set_color g RED (set_left g (Some p1) s1)) of
                                   (Inl e, s2) \<Rightarrow> (Inl e, s2)
                                 | (Inr g1, s2) \<Rightarrow> (Inr g1, set_color g1 BLACK s2)))
                         else if \<not> pl \<and> nl then
                           (case rotate_right p s of
                              (Inl e, s1) \<Rightarrow> (Inl e, s1)
                            | (Inr p1, s1) \<Rightarrow>
                                (case rotate_left g
                                        (set_color g RED (set_right g (Some p1) s1)) of
                                   (Inl e, s2) \<Rightarrow> (Inl e, s2)
                                 | (Inr g1, s2) \<Rightarrow> (Inr g1, set_color g1 BLACK s2)))
                         else
                           rotate_left g (set_color p BLACK (set_color g RED s))))))"

text \<open>
  \<open>_recolor\<close>, recursive in the source, with the same allowance of nested calls as
  \<open>_insert_node\<close>. The result is the node the source returns; \<open>self.root\<close> may be
  \<open>None\<close>, so the result is an optional reference.
\<close>

fun recolor :: "nat \<Rightarrow> addr \<Rightarrow> state \<Rightarrow> (error + addr option) \<times> state" where
  "recolor 0 start_node s = (Inl RecursionError, s)"
| "recolor (Suc k) start_node s =
     (case get_uncle start_node s of
        Inl e \<Rightarrow> (Inl e, s)
      | Inr uncle \<Rightarrow>
          (case parent (heap s start_node) of
             None \<Rightarrow> (Inr (Some start_node), s)
           | Some p \<Rightarrow>
               (case parent (heap s p) of
                  None \<Rightarrow> (Inr (Some p), s)
                | Some g \<Rightarrow>
                    if color (heap s p) = BLACK then (Inr (rbt_root s), s)
                    else if uncle \<noteq> None \<and> color (heap s (the uncle)) = RED then
                      recolor k g
                        (set_color g RED
                           (set_color (the uncle) BLACK (set_color p BLACK s)))
                    else
                      (let great_grandparent = parent (heap s g) in
                       case recolor_case3 start_node s of
                         (Inl e, s1) \<Rightarrow> (Inl e, s1)
                       | (Inr g1, s1) \<Rightarrow>
                           (case great_grandparent of
                              None \<Rightarrow> recolor k g1 s1
                            | Some gg \<Rightarrow>
                                (case py_gt (data (heap s1 gg)) (data (heap s1 g1)) of
                                   Inl e \<Rightarrow> (Inl e, s1)
                                 | Inr True \<Rightarrow>
                                     recolor k g1 (set_left gg (Some g1) s1)
                                 | Inr False \<Rightarrow>
                                     recolor k g1 (set_right gg (Some g1) s1)))))))"

text \<open>\<open>insert\<close>.\<close>

definition rbt_insert :: "nat \<Rightarrow> pyval \<Rightarrow> state \<Rightarrow> (error + unit) \<times> state" where
  "rbt_insert fuel v s =
     (if v = PNone then (Inl ValueError, s)
      else if is_empty s then
        (case BasicNode v RED s of
           (Inl e, s1) \<Rightarrow> (Inl e, s1)
         | (Inr a, s1) \<Rightarrow>
             (let s2 = s1\<lparr>rbt_root := Some a\<rparr>;
                  s3 = set_color a BLACK s2
              in (Inr (), s3\<lparr>rbt_length := rbt_length s3 + 1\<rparr>)))
      else
        (case insert_priv fuel v s of
           (Inl e, s1) \<Rightarrow> (Inl e, s1)
         | (Inr new_node, s1) \<Rightarrow>
             (case recolor fuel new_node s1 of
                (Inl e, s2) \<Rightarrow> (Inl e, s2)
              | (Inr r, s2) \<Rightarrow>
                  (let s3 = s2\<lparr>rbt_root := r\<rparr> in
                   case r of
                     None \<Rightarrow> (Inl AttributeError, s3)
                   | Some a \<Rightarrow> (Inr (), set_color a BLACK s3)))))"

text \<open>
  The loop of \<open>RBT.__init__\<close>, \<open>for item in iterable: self.insert(item)\<close>: the first
  exception ends it.
\<close>

fun insert_all :: "nat \<Rightarrow> pyval list \<Rightarrow> state \<Rightarrow> (error + unit) \<times> state" where
  "insert_all fuel [] s = (Inr (), s)"
| "insert_all fuel (v # vs) s =
     (case rbt_insert fuel v s of
        (Inl e, s1) \<Rightarrow> (Inl e, s1)
      | (Inr u, s1) \<Rightarrow> insert_all fuel vs s1)"

definition RBT_init :: "nat \<Rightarrow> pyval list \<Rightarrow> (error + unit) \<times> state" where
  "RBT_init fuel iterable = insert_all fuel iterable init_state"

section \<open>Observing a state\<close>

text \<open>
  The tree that hangs below a node, read off the store along the child links: at
  each node its left subtree, value, colour and right subtree. The first argument
  bounds the depth; \<open>view\<close> allows as many levels as there are node objects.
\<close>

datatype tree = Leaf | Fork tree pyval color tree

fun tree_of :: "nat \<Rightarrow> (addr \<Rightarrow> node) \<Rightarrow> addr option \<Rightarrow> tree option" where
  "tree_of d h None = Some Leaf"
| "tree_of 0 h (Some a) = None"
| "tree_of (Suc d) h (Some a) =
     (case tree_of d h (left (h a)) of
        None \<Rightarrow> None
      | Some l \<Rightarrow>
          (case tree_of d h (right (h a)) of
             None \<Rightarrow> None
           | Some r \<Rightarrow> Some (Fork l (data (h a)) (color (h a)) r)))"

definition view :: "state \<Rightarrow> tree option" where
  "view s = tree_of (nxt s) (heap s) (rbt_root s)"

text \<open>The number of black nodes on each path from the root of a tree to an empty
  position, from left to right.\<close>

fun black_counts :: "tree \<Rightarrow> nat list" where
  "black_counts Leaf = [0]"
| "black_counts (Fork l v c r) =
     map (\<lambda>n. if c = BLACK then n + 1 else n) (black_counts l @ black_counts r)"

definition ints :: "int list \<Rightarrow> pyval list" where
  "ints xs = map PInt xs"

text \<open>The trees used in the scenarios below, built by \<open>RBT(...)\<close> with Python's
  default recursion limit.\<close>

definition tree_1_2 :: state where
  "tree_1_2 = snd (RBT_init 1000 (ints [1, 2]))"

definition tree_1_2_3 :: state where
  "tree_1_2_3 = snd (RBT_init 1000 (ints [1, 2, 3]))"

definition tree_six :: state where
  "tree_six = snd (RBT_init 1000 (ints [13, 8, 17, 1, 11, 6]))"

definition tree_eight :: state where
  "tree_eight = snd (RBT_init 1000 (ints [13, 8, 17, 1, 11, 15, 25, 6]))"

definition tree_nine :: state where
  "tree_nine = snd (RBT_init 1000 (ints [13, 8, 17, 1, 11, 15, 25, 6, 14]))"


section \<open>Reachable states and what the operations preserve\<close>

text \<open>
  The states a client can reach from the empty tree: by calling \<open>insert\<close> with any
  object (a node object passed to it exists already), whether the call returns or
  raises, and by building node objects with \<open>BasicNode(value, color)\<close>.
\<close>

inductive reachable :: "state \<Rightarrow> bool" where
  reach_init: "reachable init_state"
| reach_node: "reachable s \<Longrightarrow> reachable (snd (BasicNode v c s))"
| reach_insert:
    "reachable s \<Longrightarrow> (\<forall>a. v = PNode a \<longrightarrow> a < nxt s) \<Longrightarrow>
     reachable (snd (rbt_insert fuel v s))"

text \<open>Two states that differ at most in the colours of their nodes.\<close>

definition only_colors :: "state \<Rightarrow> state \<Rightarrow> bool" where
  "only_colors s s' =
     (rbt_root s' = rbt_root s \<and> rbt_length s' = rbt_length s \<and> nxt s' = nxt s \<and>
      warned s' = warned s \<and>
      (\<forall>x. data (heap s' x) = data (heap s x) \<and> left (heap s' x) = left (heap s x) \<and>
           right (heap s' x) = right (heap s x) \<and> parent (heap s' x) = parent (heap s x)))"

text \<open>The root is \<open>None\<close> exactly when the count is zero, and the count is not
  negative.\<close>

definition count_inv :: "state \<Rightarrow> bool" where
  "count_inv s = ((rbt_root s = None) = (rbt_length s = 0) \<and> 0 \<le> rbt_length s)"

text \<open>No node object holds \<open>None\<close> or an instance of \<open>HouseOfHades\<close> as its value.\<close>

definition data_ok :: "state \<Rightarrow> bool" where
  "data_ok s =
     (\<forall>a<nxt s. data (heap s a) \<noteq> PNone \<and> \<not> is_HouseOfHades (data (heap s a)))"

section \<open>Auxiliary facts\<close>

subsection \<open>Rotation and recolouring\<close>


lemma only_colors_refl: "only_colors s s"
  by (simp add: only_colors_def)

lemma only_colors_trans: "only_colors s s1 \<Longrightarrow> only_colors s1 s2 \<Longrightarrow> only_colors s s2"
  by (simp add: only_colors_def)

lemma only_colors_set_color: "only_colors s (set_color a c s)"
  by (simp add: only_colors_def set_color_def)

lemma only_colors_set_color': "only_colors s s1 \<Longrightarrow> only_colors s (set_color a c s1)"
  using only_colors_trans only_colors_set_color by blast

lemma rotate_left_fails: "rotate_left a s = (Inl AttributeError, s)"
  by (simp add: rotate_left_def set_parent_def)

lemma rotate_right_fails: "rotate_right a s = (Inl AttributeError, s)"
  by (simp add: rotate_right_def set_parent_def)

lemma recolor_case3_fails:
  "recolor_case3 a s = (r, s') \<Longrightarrow> (\<exists>e. r = Inl e) \<and> only_colors s s'"
  by (auto simp: recolor_case3_def rotate_left_fails rotate_right_fails only_colors_refl
      only_colors_set_color' split: option.splits sum.splits if_splits)

lemma recolor_Suc_cases:
  assumes "recolor (Suc k) a s = (r, s')"
  shows "(\<exists>e. r = Inl e \<and> only_colors s s') \<or>
         (\<exists>x. r = Inr (Some x) \<and> s' = s) \<or>
         (r = Inr (rbt_root s) \<and> s' = s) \<or>
         (\<exists>g u p. recolor k g (set_color g RED (set_color u BLACK (set_color p BLACK s)))
                     = (r, s'))"
proof -
  obtain r1 s1 where rc: "recolor_case3 a s = (r1, s1)"
    by (cases "recolor_case3 a s")
  from recolor_case3_fails[OF rc] obtain e where e: "r1 = Inl e" "only_colors s s1"
    by blast
  show ?thesis
  proof (cases "get_uncle a s")
    case (Inl e')
    show ?thesis using assms by (auto simp add: Inl only_colors_refl)
  next
    case (Inr uncle)
    show ?thesis
    proof (cases uncle)
      case None
      with assms Inr rc e show ?thesis
        by (auto simp: only_colors_refl split: option.splits if_splits)
    next
      case (Some u)
      with assms Inr rc e show ?thesis
        by (cases "color (heap s u)")
           (auto simp: only_colors_refl split: option.splits if_splits)
    qed
  qed
qed

lemma recolor_only_colors: "recolor k a s = (r, s') \<Longrightarrow> only_colors s s'"
proof (induction k arbitrary: a s)
  case 0
  then show ?case by (simp add: only_colors_refl)
next
  case (Suc k)
  from recolor_Suc_cases[OF Suc.prems] show ?case
  proof (elim disjE exE conjE)
    fix g u p
    assume "recolor k g (set_color g RED (set_color u BLACK (set_color p BLACK s))) = (r, s')"
    from Suc.IH[OF this] show ?thesis
      using only_colors_set_color only_colors_trans by blast
  qed (simp_all add: only_colors_refl)
qed

lemma recolor_result:
  "recolor k a s = (Inr r, s') \<Longrightarrow> rbt_root s \<noteq> None \<Longrightarrow> r \<noteq> None"
proof (induction k arbitrary: a s)
  case 0
  then show ?case by simp
next
  case (Suc k)
  from recolor_Suc_cases[OF Suc.prems(1)] show ?case
  proof (elim disjE exE conjE)
    fix g u p
    assume rec: "recolor k g (set_color g RED (set_color u BLACK (set_color p BLACK s))) = (Inr r, s')"
    have "rbt_root (set_color g RED (set_color u BLACK (set_color p BLACK s))) \<noteq> None"
      using Suc.prems(2) by (simp add: set_color_def)
    with rec show ?thesis by (rule Suc.IH)
  qed (use Suc.prems(2) in auto)
qed

subsection \<open>Insertion below a node\<close>

lemma insert_node_frame:
  "insert_node k st ins s = (r, s') \<Longrightarrow>
   rbt_root s' = rbt_root s \<and> nxt s' = nxt s \<and> rbt_length s \<le> rbt_length s' \<and>
   (\<forall>x. data (heap s' x) = data (heap s x) \<and> color (heap s' x) = color (heap s x))"
proof (induction k arbitrary: st s)
  case 0
  then show ?case by simp
next
  case (Suc k)
  show ?case
  proof (cases "py_eq (data (heap s ins)) (data (heap s st))")
    case True
    with Suc.prems show ?thesis by (auto simp: Let_def)
  next
    case False
    show ?thesis
    proof (cases "py_lt (data (heap s ins)) (data (heap s st))")
      case (Inl e)
      with Suc.prems False show ?thesis by (auto simp: Let_def)
    next
      case (Inr b)
      show ?thesis
      proof (cases b)
        case True
        show ?thesis
        proof (cases "left (heap s st)")
          case None
          with Suc.prems False Inr True show ?thesis
            by (auto simp: Let_def set_left_def)
        next
          case (Some l)
          with Suc.prems False Inr True have "insert_node k l ins s = (r, s')"
            by (simp add: Let_def)
          then show ?thesis by (rule Suc.IH)
        qed
      next
        case False2: False
        show ?thesis
        proof (cases "right (heap s st)")
          case None
          with Suc.prems False Inr False2 show ?thesis
            by (auto simp: Let_def set_right_def)
        next
          case (Some l)
          with Suc.prems False Inr False2 have "insert_node k l ins s = (r, s')"
            by (simp add: Let_def)
          then show ?thesis by (rule Suc.IH)
        qed
      qed
    qed
  qed
qed

lemma insert_node_attach:
  "insert_node k st ins s = (Inr r, s') \<Longrightarrow>
   (warned s' = warned s @ [data (heap s ins)] \<and> rbt_length s' = rbt_length s \<and>
    heap s' = heap s) \<or>
   (warned s' = warned s \<and> r = ins \<and> rbt_length s' = rbt_length s + 1 \<and>
    (\<exists>p. parent (heap s' ins) = Some p \<and>
         (left (heap s' p) = Some ins \<or> right (heap s' p) = Some ins)))"
proof (induction k arbitrary: st s)
  case 0
  then show ?case by simp
next
  case (Suc k)
  show ?case
  proof (cases "py_eq (data (heap s ins)) (data (heap s st))")
    case True
    with Suc.prems show ?thesis by (auto simp: Let_def)
  next
    case False
    show ?thesis
    proof (cases "py_lt (data (heap s ins)) (data (heap s st))")
      case (Inl e)
      with Suc.prems False show ?thesis by (auto simp: Let_def)
    next
      case (Inr b)
      show ?thesis
      proof (cases b)
        case True
        show ?thesis
        proof (cases "left (heap s st)")
          case None
          with Suc.prems False Inr True show ?thesis
            by (auto simp: Let_def set_left_def split: if_splits)
        next
          case (Some l)
          with Suc.prems False Inr True have "insert_node k l ins s = (Inr r, s')"
            by (simp add: Let_def)
          then show ?thesis by (rule Suc.IH)
        qed
      next
        case False2: False
        show ?thesis
        proof (cases "right (heap s st)")
          case None
          with Suc.prems False Inr False2 show ?thesis
            by (auto simp: Let_def set_right_def split: if_splits)
        next
          case (Some l)
          with Suc.prems False Inr False2 have "insert_node k l ins s = (Inr r, s')"
            by (simp add: Let_def)
          then show ?thesis by (rule Suc.IH)
        qed
      qed
    qed
  qed
qed

lemma BasicNode_frame:
  "BasicNode v c s = (r, s') \<Longrightarrow>
   rbt_root s' = rbt_root s \<and> rbt_length s' = rbt_length s \<and> warned s' = warned s \<and>
   nxt s \<le> nxt s' \<and> (\<forall>x < nxt s. heap s' x = heap s x)"
  by (auto simp: BasicNode_def split: option.splits)

lemma insert_priv_frame:
  assumes "insert_priv k v s = (r, s')"
  shows "rbt_root s' = rbt_root s \<and> rbt_length s \<le> rbt_length s'"
proof (cases "is_numeric v")
  case True
  then have notnode: "\<And>a. v \<noteq> PNode a" by auto
  show ?thesis
  proof (cases "rbt_root s")
    case None
    with assms True notnode show ?thesis
      by (cases v) (auto simp: insert_priv_def insert_numeric_def)
  next
    case (Some st)
    obtain r1 s1 where bn: "BasicNode v RED s = (r1, s1)" by (cases "BasicNode v RED s")
    note f1 = BasicNode_frame[OF bn]
    show ?thesis
    proof (cases r1)
      case (Inl e)
      with assms True Some bn f1 show ?thesis
        by (cases v) (auto simp: insert_priv_def insert_numeric_def)
    next
      case (Inr a)
      with assms True Some bn have "insert_node k st a s1 = (r, s')"
        by (cases v) (auto simp: insert_priv_def insert_numeric_def)
      from insert_node_frame[OF this] f1 show ?thesis by simp
    qed
  qed
next
  case False
  show ?thesis
  proof (cases v)
    case (PNode a)
    show ?thesis
    proof (cases "rbt_root s")
      case None
      with assms PNode show ?thesis by (auto simp: insert_priv_def)
    next
      case (Some st)
      with assms PNode have "insert_node k st a s = (r, s')"
        by (auto simp: insert_priv_def)
      from insert_node_frame[OF this] show ?thesis by simp
    qed
  qed (use assms False in \<open>auto simp: insert_priv_def\<close>)
qed

lemma rbt_insert_count_inv:
  assumes "count_inv s" "rbt_insert k v s = (r, s')"
  shows "count_inv s'"
proof (cases "v = PNone")
  case True
  with assms show ?thesis by (simp add: rbt_insert_def)
next
  case nn: False
  show ?thesis
  proof (cases "rbt_root s")
    case None
    obtain r1 s1 where bn: "BasicNode v RED s = (r1, s1)" by (cases "BasicNode v RED s")
    note f1 = BasicNode_frame[OF bn]
    show ?thesis
    proof (cases r1)
      case (Inl e)
      with assms nn None bn f1 show ?thesis
        by (auto simp: rbt_insert_def is_empty_def count_inv_def)
    next
      case (Inr a)
      with assms nn None bn f1 show ?thesis
        by (auto simp: rbt_insert_def is_empty_def count_inv_def set_color_def Let_def)
    qed
  next
    case (Some st)
    obtain r1 s1 where ip: "insert_priv k v s = (r1, s1)" by (cases "insert_priv k v s")
    note f1 = insert_priv_frame[OF ip]
    from f1 assms(1) Some have inv1: "count_inv s1" "rbt_root s1 \<noteq> None"
      by (auto simp: count_inv_def)
    show ?thesis
    proof (cases r1)
      case (Inl e)
      with assms nn Some ip inv1 show ?thesis
        by (auto simp: rbt_insert_def is_empty_def)
    next
      case (Inr n)
      obtain r2 s2 where rc: "recolor k n s1 = (r2, s2)" by (cases "recolor k n s1")
      from recolor_only_colors[OF rc] inv1 have inv2: "count_inv s2" "rbt_root s2 \<noteq> None"
        by (auto simp: only_colors_def count_inv_def)
      show ?thesis
      proof (cases r2)
        case Inl2: (Inl e)
        with assms nn Some ip Inr rc inv2 show ?thesis
          by (auto simp: rbt_insert_def is_empty_def)
      next
        case Inr2: (Inr ro)
        with rc inv1 recolor_result have "ro \<noteq> None" by blast
        then obtain a where a: "ro = Some a" by blast
        with assms nn Some ip Inr rc Inr2 inv2 show ?thesis
          by (auto simp: rbt_insert_def is_empty_def count_inv_def set_color_def Let_def)
      qed
    qed
  qed
qed

lemma reachable_count_inv: "reachable s \<Longrightarrow> count_inv s"
proof (induction rule: reachable.induct)
  case reach_init
  show ?case by (simp add: count_inv_def init_state_def)
next
  case (reach_node s v c)
  then show ?case
    using BasicNode_frame[of v c s "fst (BasicNode v c s)" "snd (BasicNode v c s)"]
    by (simp add: count_inv_def)
next
  case (reach_insert s v fuel)
  then show ?case
    using rbt_insert_count_inv[of s fuel v "fst (rbt_insert fuel v s)" "snd (rbt_insert fuel v s)"]
    by simp
qed

subsection \<open>Stored values\<close>





lemma data_ok_set_color: "data_ok s \<Longrightarrow> data_ok (set_color a c s)"
  by (simp add: data_ok_def set_color_def)



lemma insert_priv_attach:
  assumes "insert_priv k v s = (Inr n, s1)" "warned s1 = warned s"
  shows "rbt_length s1 = rbt_length s + 1 \<and>
         (\<exists>p. parent (heap s1 n) = Some p \<and>
              (left (heap s1 p) = Some n \<or> right (heap s1 p) = Some n))"
proof -
  have *: "rbt_length s1 = rbt_length s0 + 1 \<and>
         (\<exists>p. parent (heap s1 n) = Some p \<and>
              (left (heap s1 p) = Some n \<or> right (heap s1 p) = Some n))"
    if "insert_node k st a s0 = (Inr n, s1)" "warned s0 = warned s" for st a s0
    using insert_node_attach[OF that(1)] that(2) assms(2) by auto
  show ?thesis
  proof (cases "is_numeric v")
    case True
    then have notnode: "\<And>a. v \<noteq> PNode a" by auto
    show ?thesis
    proof (cases "rbt_root s")
      case None
      with assms True notnode show ?thesis
        by (cases v) (auto simp: insert_priv_def insert_numeric_def)
    next
      case (Some st)
      obtain r1 s0 where bn: "BasicNode v RED s = (r1, s0)" by (cases "BasicNode v RED s")
      note f1 = BasicNode_frame[OF bn]
      show ?thesis
      proof (cases r1)
        case (Inl e)
        with assms True Some bn show ?thesis
          by (cases v) (auto simp: insert_priv_def insert_numeric_def)
      next
        case (Inr a)
        with assms True Some bn have "insert_node k st a s0 = (Inr n, s1)"
          by (cases v) (auto simp: insert_priv_def insert_numeric_def)
        from *[OF this] f1 show ?thesis by simp
      qed
    qed
  next
    case False
    show ?thesis
    proof (cases v)
      case (PNode a)
      show ?thesis
      proof (cases "rbt_root s")
        case None
        with assms PNode show ?thesis by (auto simp: insert_priv_def)
      next
        case (Some st)
        with assms PNode have "insert_node k st a s = (Inr n, s1)"
          by (auto simp: insert_priv_def)
        from *[OF this] show ?thesis by simp
      qed
    qed (use assms False in \<open>auto simp: insert_priv_def\<close>)
  qed
qed

subsection \<open>Reachability of the scenario trees\<close>

lemma insert_all_reachable:
  "reachable s \<Longrightarrow> list_all (\<lambda>v. \<not> is_BasicNode v) vs \<Longrightarrow>
   reachable (snd (insert_all fuel vs s))"
proof (induction vs arbitrary: s)
  case Nil
  then show ?case by simp
next
  case (Cons v vs)
  obtain r s1 where step: "rbt_insert fuel v s = (r, s1)"
    by (cases "rbt_insert fuel v s")
  from Cons.prems have "\<forall>a. v = PNode a \<longrightarrow> a < nxt s"
    by auto
  with Cons.prems(1) have "reachable (snd (rbt_insert fuel v s))"
    by (rule reach_insert)
  with step have r1: "reachable s1"
    by simp
  show ?case
  proof (cases r)
    case (Inl e)
    with step r1 show ?thesis by simp
  next
    case (Inr u)
    with step Cons.IH[OF r1] Cons.prems(2) show ?thesis by simp
  qed
qed

lemma RBT_init_reachable:
  "reachable (snd (RBT_init fuel (ints xs)))"
  unfolding RBT_init_def
  by (rule insert_all_reachable[OF reach_init]) (simp add: ints_def list_all_iff)

subsection \<open>A node object passed to \<open>insert\<close>\<close>





subsection \<open>The root has no parent\<close>









section \<open>The claims\<close>

text \<open>
  C1 (invariants after every insertion). The claim: for every sequence of distinct
  numbers inserted one by one into an empty tree, after each completed call of
  \<open>insert\<close> the root is black, no red node has a red child, all paths from the
  root to an empty position pass the same number of black nodes, and the tree is a
  search tree. The code at \<open>RBT([1, 2, 3])\<close>: the first two calls return, the
  third reaches case III, colours node 1 red and node 2 black, and raises
  \<open>AttributeError\<close> at \<open>middle.set_parent\<close>; it leaves a red root above a right
  chain. A following call \<open>insert(0)\<close> returns and leaves paths with one and with
  two black nodes.
\<close>

theorem insert_ascending_breaks_invariants:
  "fst (RBT_init 1000 (ints [1, 2])) = Inr () \<and>
   fst (rbt_insert 1000 (PInt 3) tree_1_2) = Inl AttributeError \<and>
   view (snd (rbt_insert 1000 (PInt 3) tree_1_2)) =
     Some (Fork Leaf (PInt 1) RED (Fork Leaf (PInt 2) BLACK (Fork Leaf (PInt 3) RED Leaf))) \<and>
   fst (rbt_insert 1000 (PInt 0) (snd (rbt_insert 1000 (PInt 3) tree_1_2))) = Inr () \<and>
   view (snd (rbt_insert 1000 (PInt 0) (snd (rbt_insert 1000 (PInt 3) tree_1_2)))) =
     Some (Fork (Fork Leaf (PInt 0) RED Leaf) (PInt 1) BLACK
             (Fork Leaf (PInt 2) BLACK (Fork Leaf (PInt 3) RED Leaf))) \<and>
   black_counts (Fork (Fork Leaf (PInt 0) RED Leaf) (PInt 1) BLACK
             (Fork Leaf (PInt 2) BLACK (Fork Leaf (PInt 3) RED Leaf))) = [1, 1, 2, 2, 2]"
  by code_simp

text \<open>
  C2 (ascending scenario). The claim: \<open>RBT([1, 2, 3])\<close> rotates left at the third
  insertion and ends with root 2 above 1 and 3. The code: the constructor raises
  \<open>AttributeError\<close> out of the third insertion; the three nodes stay in one right
  chain below root 1, and the count is 3.
\<close>

theorem insert_1_2_3_raises:
  "fst (RBT_init 1000 (ints [1, 2, 3])) = Inl AttributeError \<and>
   view tree_1_2_3 =
     Some (Fork Leaf (PInt 1) RED (Fork Leaf (PInt 2) BLACK (Fork Leaf (PInt 3) RED Leaf))) \<and>
   view tree_1_2_3 \<noteq>
     Some (Fork (Fork Leaf (PInt 1) RED Leaf) (PInt 2) BLACK (Fork Leaf (PInt 3) RED Leaf)) \<and>
   rbt_length tree_1_2_3 = 3"
  by code_simp

text \<open>
  C3 (duplicates). The claim: inserting a value that the tree holds warns and leaves
  the count, the links and the colours as they were. The code runs the recolouring
  from the node that holds the value. In \<open>RBT([13, 8, 17, 1, 11, 15, 25, 6, 14])\<close>
  the call \<open>insert(1)\<close> returns, warns and keeps the count 9, and turns the red
  nodes 8 and 17 black. In \<open>RBT([13, 8, 17, 1, 11, 6])\<close> the call \<open>insert(1)\<close>
  warns, turns 13 red and 8 black and raises \<open>AttributeError\<close>.
\<close>

theorem duplicate_insert_recolors:
  "fst (RBT_init 1000 (ints [13, 8, 17, 1, 11, 15, 25, 6, 14])) = Inr () \<and>
   view tree_nine =
     Some (Fork (Fork (Fork Leaf (PInt 1) BLACK (Fork Leaf (PInt 6) RED Leaf)) (PInt 8) RED
                   (Fork Leaf (PInt 11) BLACK Leaf))
             (PInt 13) BLACK
             (Fork (Fork (Fork Leaf (PInt 14) RED Leaf) (PInt 15) BLACK Leaf) (PInt 17) RED
                   (Fork Leaf (PInt 25) BLACK Leaf))) \<and>
   fst (rbt_insert 1000 (PInt 1) tree_nine) = Inr () \<and>
   warned (snd (rbt_insert 1000 (PInt 1) tree_nine)) = [PInt 1] \<and>
   rbt_length tree_nine = 9 \<and>
   rbt_length (snd (rbt_insert 1000 (PInt 1) tree_nine)) = 9 \<and>
   view (snd (rbt_insert 1000 (PInt 1) tree_nine)) =
     Some (Fork (Fork (Fork Leaf (PInt 1) BLACK (Fork Leaf (PInt 6) RED Leaf)) (PInt 8) BLACK
                   (Fork Leaf (PInt 11) BLACK Leaf))
             (PInt 13) BLACK
             (Fork (Fork (Fork Leaf (PInt 14) RED Leaf) (PInt 15) BLACK Leaf) (PInt 17) BLACK
                   (Fork Leaf (PInt 25) BLACK Leaf))) \<and>
   fst (RBT_init 1000 (ints [13, 8, 17, 1, 11, 6])) = Inr () \<and>
   view tree_six =
     Some (Fork (Fork (Fork Leaf (PInt 1) BLACK (Fork Leaf (PInt 6) RED Leaf)) (PInt 8) RED
                   (Fork Leaf (PInt 11) BLACK Leaf))
             (PInt 13) BLACK (Fork Leaf (PInt 17) BLACK Leaf)) \<and>
   fst (rbt_insert 1000 (PInt 1) tree_six) = Inl AttributeError \<and>
   warned (snd (rbt_insert 1000 (PInt 1) tree_six)) = [PInt 1] \<and>
   rbt_length (snd (rbt_insert 1000 (PInt 1) tree_six)) = 6 \<and>
   view (snd (rbt_insert 1000 (PInt 1) tree_six)) =
     Some (Fork (Fork (Fork Leaf (PInt 1) BLACK (Fork Leaf (PInt 6) RED Leaf)) (PInt 8) BLACK
                   (Fork Leaf (PInt 11) BLACK Leaf))
             (PInt 13) RED (Fork Leaf (PInt 17) BLACK Leaf))"
  by code_simp

text \<open>
  C4 (scenario of eight values). The claim: \<open>RBT([13, 8, 17, 1, 11, 15, 25, 6])\<close>
  has the black root 13 with the black children 8 and 17, 1 and 11 below 8, 15 and
  25 below 17, and two black nodes on every path from the root to an empty
  position. The code leaves node 8 red, as the picture in the docstring of
  \<open>RBT.__init__\<close> shows it: the root is the node at address 0, its left child
  the node at address 1, which holds 8 and is red.
\<close>

theorem scenario_eight_child_8_is_red:
  "rbt_root tree_eight = Some 0 \<and> data (heap tree_eight 0) = PInt 13 \<and>
   left (heap tree_eight 0) = Some 1 \<and> data (heap tree_eight 1) = PInt 8 \<and>
   color (heap tree_eight 1) = RED \<and> color (heap tree_eight 1) \<noteq> BLACK"
  by code_simp

text \<open>
  C4 as the code has it: the constructor returns; the root 13 is black, its left
  child 8 is red and its right child 17 is black; 8 has the black children 1 and
  11, and 1 has the red right child 6; 17 has the red children 15 and 25; each of
  the nine paths from the root to an empty position passes two black nodes, and
  the count is 8.
\<close>

theorem scenario_eight_values:
  "fst (RBT_init 1000 (ints [13, 8, 17, 1, 11, 15, 25, 6])) = Inr () \<and>
   view tree_eight =
     Some (Fork (Fork (Fork Leaf (PInt 1) BLACK (Fork Leaf (PInt 6) RED Leaf)) (PInt 8) RED
                   (Fork Leaf (PInt 11) BLACK Leaf))
             (PInt 13) BLACK
             (Fork (Fork Leaf (PInt 15) RED Leaf) (PInt 17) BLACK
                   (Fork Leaf (PInt 25) RED Leaf))) \<and>
   black_counts
     (Fork (Fork (Fork Leaf (PInt 1) BLACK (Fork Leaf (PInt 6) RED Leaf)) (PInt 8) RED
                   (Fork Leaf (PInt 11) BLACK Leaf))
             (PInt 13) BLACK
             (Fork (Fork Leaf (PInt 15) RED Leaf) (PInt 17) BLACK
                   (Fork Leaf (PInt 25) RED Leaf))) = [2, 2, 2, 2, 2, 2, 2, 2, 2] \<and>
   rbt_length tree_eight = 8"
  by code_simp

text \<open>
  C5 (non-numeric values). The claim: \<open>insert\<close> raises a type error for every
  object that is neither an \<open>int\<close>, a \<open>float\<close> nor a node, whatever the tree holds.
  The code: an empty tree takes the string \<open>"2"\<close> as the value of its root and
  returns; a tree that holds 10 raises \<open>AssertionError\<close> for it, out of \<open>_insert\<close>.
\<close>

theorem insert_non_numeric:
  "fst (rbt_insert 1000 (PStr ''2'') init_state) = Inr () \<and>
   view (snd (rbt_insert 1000 (PStr ''2'') init_state)) =
     Some (Fork Leaf (PStr ''2'') BLACK Leaf) \<and>
   rbt_length (snd (rbt_insert 1000 (PStr ''2'') init_state)) = 1 \<and>
   fst (RBT_init 1000 (ints [10])) = Inr () \<and>
   fst (rbt_insert 1000 (PStr ''2'') (snd (RBT_init 1000 (ints [10])))) = Inl AssertionError"
  by code_simp

text \<open>
  C6 (rotations are inverse). The claim: on a node with a right child
  \<open>_rotate_left\<close> returns a new subtree root on which \<open>_rotate_right\<close> restores the
  arrangement, and the other way round. The code: either rotation raises
  \<open>AttributeError\<close> at its second statement, on every node of every store, before
  it has written anything; in \<open>RBT([1, 2])\<close> the root has the right child 2 and
  the rotation of the root raises.
\<close>

theorem rotation_raises:
  "rotate_left x s = (Inl AttributeError, s) \<and>
   rotate_right x s = (Inl AttributeError, s) \<and>
   rbt_root tree_1_2 = Some 0 \<and> right (heap tree_1_2 0) = Some 1 \<and>
   rotate_left 0 tree_1_2 = (Inl AttributeError, tree_1_2)"
proof -
  have "rbt_root tree_1_2 = Some 0 \<and> right (heap tree_1_2 0) = Some 1"
    by code_simp
  then show ?thesis
    by (simp add: rotate_left_def rotate_right_def set_parent_def)
qed




text \<open>
  C8 (emptiness). In every state reached from the empty tree by calls of \<open>insert\<close>
  (and by node constructions), whether the calls returned or raised, \<open>is_empty()\<close>
  is true exactly when \<open>_length\<close> is 0 and \<open>root\<close> is \<open>None\<close>; the three conditions
  are equivalent.
\<close>

theorem is_empty_iff_zero_length:
  assumes "reachable s"
  shows "(is_empty s \<longleftrightarrow> rbt_length s = 0 \<and> rbt_root s = None) \<and>
         (is_empty s \<longleftrightarrow> rbt_length s = 0) \<and>
         (rbt_length s = 0 \<longleftrightarrow> rbt_root s = None)"
  using reachable_count_inv[OF assms] by (auto simp: count_inv_def is_empty_def)

theorem is_empty_iff_zero_length_witness:
  "reachable init_state \<and> is_empty init_state \<and> rbt_length init_state = 0 \<and>
   reachable (snd (rbt_insert 1000 (PInt 3) tree_1_2)) \<and>
   \<not> is_empty (snd (rbt_insert 1000 (PInt 3) tree_1_2)) \<and>
   rbt_length (snd (rbt_insert 1000 (PInt 3) tree_1_2)) \<noteq> 0 \<and>
   rbt_root (snd (rbt_insert 1000 (PInt 3) tree_1_2)) \<noteq> None"
proof -
  let ?t = "snd (rbt_insert 1000 (PInt 3) tree_1_2)"
  have r0: "reachable init_state"
    by (rule reach_init)
  have r12: "reachable tree_1_2"
    unfolding tree_1_2_def by (rule RBT_init_reachable)
  have r: "reachable ?t"
    by (rule reach_insert[OF r12]) simp
  have ne: "rbt_root ?t \<noteq> None"
    by code_simp
  have l0: "rbt_length init_state = 0"
    by (simp add: init_state_def)
  from is_empty_iff_zero_length[OF r0] l0 have a: "is_empty init_state"
    by simp
  from is_empty_iff_zero_length[OF r] ne
  have b: "\<not> is_empty ?t" "rbt_length ?t \<noteq> 0"
    by simp_all
  from r0 a l0 r b ne show ?thesis
    by simp
qed

text \<open>
  C9 (no rollback). On a tree with a root, when \<open>_insert\<close> has attached a new node
  (it returned without a duplicate warning) and the recolouring that follows
  raises, \<open>insert\<close> raises the same exception and leaves the state the recolouring
  left: the count is one more than before the call, the new node is still the
  child of its parent, and \<open>root\<close> is what it was.
\<close>

theorem insert_not_atomic:
  assumes "rbt_root s \<noteq> None" and "v \<noteq> PNone"
    and "insert_priv fuel v s = (Inr n, s1)"
    and "warned s1 = warned s"
    and "recolor fuel n s1 = (Inl e, s2)"
  shows "rbt_insert fuel v s = (Inl e, s2) \<and>
         rbt_length s2 = rbt_length s + 1 \<and>
         (\<exists>p. parent (heap s2 n) = Some p \<and>
              (left (heap s2 p) = Some n \<or> right (heap s2 p) = Some n)) \<and>
         rbt_root s2 = rbt_root s"
proof -
  from assms have run: "rbt_insert fuel v s = (Inl e, s2)"
    by (auto simp: rbt_insert_def is_empty_def)
  note att = insert_priv_attach[OF assms(3,4)]
  note oc = recolor_only_colors[OF assms(5)]
  note fr = insert_priv_frame[OF assms(3)]
  from att oc fr run show ?thesis by (simp add: only_colors_def)
qed

theorem insert_not_atomic_witness:
  "rbt_root tree_1_2 \<noteq> None \<and> rbt_length tree_1_2 = 2 \<and>
   fst (insert_priv 1000 (PInt 3) tree_1_2) = Inr 2 \<and>
   fst (recolor 1000 2 (snd (insert_priv 1000 (PInt 3) tree_1_2))) = Inl AttributeError \<and>
   rbt_insert 1000 (PInt 3) tree_1_2 =
     (Inl AttributeError, snd (recolor 1000 2 (snd (insert_priv 1000 (PInt 3) tree_1_2)))) \<and>
   rbt_length (snd (rbt_insert 1000 (PInt 3) tree_1_2)) = 3 \<and>
   parent (heap (snd (rbt_insert 1000 (PInt 3) tree_1_2)) 2) = Some 1 \<and>
   right (heap (snd (rbt_insert 1000 (PInt 3) tree_1_2)) 1) = Some 2"
proof -
  let ?s1 = "snd (insert_priv 1000 (PInt 3) tree_1_2)"
  let ?s2 = "snd (recolor 1000 2 ?s1)"
  have h1: "rbt_root tree_1_2 \<noteq> None" and len: "rbt_length tree_1_2 = 2"
    by code_simp+
  have h2: "PInt 3 \<noteq> PNone"
    by simp
  have f3: "fst (insert_priv 1000 (PInt 3) tree_1_2) = Inr 2"
    by code_simp
  then have h3: "insert_priv 1000 (PInt 3) tree_1_2 = (Inr 2, ?s1)"
    by (simp add: prod_eq_iff)
  have h4: "warned ?s1 = warned tree_1_2"
    by code_simp
  have f5: "fst (recolor 1000 2 ?s1) = Inl AttributeError"
    by code_simp
  then have h5: "recolor 1000 2 ?s1 = (Inl AttributeError, ?s2)"
    by (simp add: prod_eq_iff)
  have run: "rbt_insert 1000 (PInt 3) tree_1_2 = (Inl AttributeError, ?s2)"
    and cnt: "rbt_length ?s2 = rbt_length tree_1_2 + 1"
    using insert_not_atomic[OF h1 h2 h3 h4 h5] by simp_all
  have links: "parent (heap (snd (rbt_insert 1000 (PInt 3) tree_1_2)) 2) = Some 1"
    "right (heap (snd (rbt_insert 1000 (PInt 3) tree_1_2)) 1) = Some 2"
    by code_simp+
  from h1 len f3 f5 run cnt links show ?thesis
    by simp
qed

text \<open>
  C10 (\<open>swap\<close> is an involution). For any two node objects, the same or distinct,
  \<open>BasicNode.swap\<close> returns, a second call restores the state the first call
  started from, values and colours included, and the first call leaves every
  link of every node as it was.
\<close>

theorem swap_involution:
  "fst (swap (PNode a) (PNode b) s) = Inr () \<and>
   swap (PNode a) (PNode b) (snd (swap (PNode a) (PNode b) s)) = (Inr (), s) \<and>
   (\<forall>x. left (heap (snd (swap (PNode a) (PNode b) s)) x) = left (heap s x) \<and>
        right (heap (snd (swap (PNode a) (PNode b) s)) x) = right (heap s x) \<and>
        parent (heap (snd (swap (PNode a) (PNode b) s)) x) = parent (heap s x))"
  by (cases "a = b") (auto simp: swap_def Let_def fun_eq_iff intro!: state.equality)

end
